theory Spec2Isabelle
  imports Complex_Main "HOL-Library.Multiset" "HOL-Library.Sublist" "HOL-Library.Log_Nat"
begin

unbundle bit_operations_syntax

section \<open>The housing script: splitters, binning, imputation and the attribute adder\<close>

text \<open>
  Besides its two loaders, the script \<^verbatim>\<open>ml_real_state.py\<close> defines three functions
  and one class of its own (\<^verbatim>\<open>split_train_test\<close>, \<^verbatim>\<open>test_set_check\<close>,
  \<^verbatim>\<open>split_train_test_by_id\<close>, \<^verbatim>\<open>CombinedAttributesAdder\<close>); everything else
  is a call into pandas, NumPy, zlib or scikit-learn.

  Conventions of the embedding:
  \<^item> a Python \<^verbatim>\<open>int\<close> is an \<open>int\<close>;
  \<^item> a float is an \<open>np_float\<close>: a finite double, an infinity or NaN. An operation on
    doubles rounds its exact result to the nearest double. The ratio of the hash-based
    split, which is only compared with a checksum, is a finite double and is the \<open>real\<close>
    it denotes;
  \<^item> an exception is the \<open>Inl\<close> branch of a sum;
  \<^item> the random draw of \<^verbatim>\<open>np.random.permutation\<close>, the library functions
    \<^verbatim>\<open>crc32\<close> and \<^verbatim>\<open>np.int64\<close>, and the division of two array entries (which
    depends on the dtype of the array) are arguments of the functions that call them.
\<close>

subsection \<open>Exceptions\<close>

datatype py_error =
  IndexError | KeyError | ValueError | OverflowError | ZeroDivisionError | IndexingError

subsection \<open>Floats\<close>

text \<open>
  The values of a float column, and the edges of the bins: the finite doubles, the two
  infinities (the source's last edge is \<^verbatim>\<open>np.inf\<close>) and NaN, with the comparisons of
  IEEE 754: NaN is neither below nor above anything.
\<close>

datatype np_float = Finite real | PosInf | NegInf | NaN

text \<open>
  Rounding a real to the nearest double (IEEE 754 binary64, ties to even). A finite double
  is \<open>m * 2 ^ e\<close> with \<open>\<bar>m\<bar> < 2 ^ 53\<close> and \<open>- 1074 \<le> e \<le> 971\<close>: a real \<open>x\<close> with
  \<open>2 ^ k \<le> \<bar>x\<bar> < 2 ^ (k + 1)\<close> is rounded to a multiple of \<open>2 ^ (k - 52)\<close>, or of
  \<open>2 ^ (- 1074)\<close> when it is smaller than the normal numbers, and a result of magnitude
  \<open>2 ^ 1024\<close> overflows to an infinity. The sign of a zero is not represented: \<open>Finite 0\<close>
  is \<^verbatim>\<open>+0.0\<close>.
\<close>

definition pow2 :: "int \<Rightarrow> real" where
  "pow2 e = (if 0 \<le> e then 2 ^ nat e else 1 / 2 ^ nat (- e))"

text \<open>For \<open>0 < x\<close>, the \<open>k\<close> with \<open>2 ^ k \<le> x < 2 ^ (k + 1)\<close>.\<close>

definition floor_log2 :: "real \<Rightarrow> int" where
  "floor_log2 x = (if 1 \<le> x then bitlen \<lfloor>x\<rfloor> - 1 else - bitlen (\<lceil>1 / x\<rceil> - 1))"

definition round_half_even :: "real \<Rightarrow> int" where
  "round_half_even q =
     (let f = \<lfloor>q\<rfloor>; d = q - of_int f
      in if d < 1 / 2 then f else if 1 / 2 < d then f + 1 else if even f then f else f + 1)"

definition round_double :: "real \<Rightarrow> np_float" where
  "round_double x =
     (if x = 0 then Finite 0
      else
        (let e = max (floor_log2 \<bar>x\<bar> - 52) (- 1074);
             y = of_int (round_half_even (x / pow2 e)) * pow2 e
         in if 2 ^ 1024 \<le> \<bar>y\<bar> then (if x < 0 then NegInf else PosInf) else Finite y))"

text \<open>The division of two doubles (IEEE 754): what NumPy's \<^verbatim>\<open>/\<close> computes for two
  entries of float64 arrays. It raises nothing; a zero divisor gives an infinity or NaN.\<close>

fun float_div :: "np_float \<Rightarrow> np_float \<Rightarrow> np_float" where
  "float_div NaN y = NaN"
| "float_div x NaN = NaN"
| "float_div (Finite a) (Finite b) =
     (if b = 0 then (if a = 0 then NaN else if 0 < a then PosInf else NegInf)
      else round_double (a / b))"
| "float_div (Finite a) PosInf = Finite 0"
| "float_div (Finite a) NegInf = Finite 0"
| "float_div PosInf (Finite b) = (if b < 0 then NegInf else PosInf)"
| "float_div NegInf (Finite b) = (if b < 0 then PosInf else NegInf)"
| "float_div x y = NaN"

text \<open>The product of two doubles (IEEE 754), as Python's \<^verbatim>\<open>*\<close> computes it for two
  floats. It raises nothing; zero times an infinity is NaN.\<close>

fun float_mul :: "np_float \<Rightarrow> np_float \<Rightarrow> np_float" where
  "float_mul NaN y = NaN"
| "float_mul x NaN = NaN"
| "float_mul (Finite a) (Finite b) = round_double (a * b)"
| "float_mul (Finite a) PosInf = (if a = 0 then NaN else if 0 < a then PosInf else NegInf)"
| "float_mul (Finite a) NegInf = (if a = 0 then NaN else if 0 < a then NegInf else PosInf)"
| "float_mul PosInf (Finite b) = (if b = 0 then NaN else if 0 < b then PosInf else NegInf)"
| "float_mul NegInf (Finite b) = (if b = 0 then NaN else if 0 < b then NegInf else PosInf)"
| "float_mul PosInf PosInf = PosInf"
| "float_mul PosInf NegInf = NegInf"
| "float_mul NegInf PosInf = NegInf"
| "float_mul NegInf NegInf = PosInf"

text \<open>The conversion of an \<^verbatim>\<open>int\<close> to a float, as \<^verbatim>\<open>int * float\<close> does it first:
  the nearest double, OverflowError when there is none.\<close>

definition float_of_int :: "int \<Rightarrow> py_error + real" where
  "float_of_int n =
     (case round_double (of_int n) of Finite x \<Rightarrow> Inr x | _ \<Rightarrow> Inl OverflowError)"

text \<open>\<^verbatim>\<open>int(x)\<close> on a float truncates towards zero; it raises OverflowError on an infinity
  and ValueError on NaN.\<close>

definition trunc_toward_zero :: "real \<Rightarrow> int" where
  "trunc_toward_zero x = (if x < 0 then \<lceil>x\<rceil> else \<lfloor>x\<rfloor>)"

definition py_int :: "np_float \<Rightarrow> py_error + int" where
  "py_int x =
     (case x of
        Finite r \<Rightarrow> Inr (trunc_toward_zero r)
      | PosInf \<Rightarrow> Inl OverflowError
      | NegInf \<Rightarrow> Inl OverflowError
      | NaN \<Rightarrow> Inl ValueError)"

subsection \<open>Data frames\<close>

text \<open>
  A pandas DataFrame: the row labels (its index) and the named columns, in order. Every
  column has one value per row.
\<close>

record ('i, 'v) dataframe =
  index :: "'i list"
  columns :: "(string \<times> 'v list) list"

definition len :: "('i, 'v) dataframe \<Rightarrow> nat" where
  "len data = length (index data)"

definition wf_dataframe :: "('i, 'v) dataframe \<Rightarrow> bool" where
  "wf_dataframe data \<longleftrightarrow> list_all (\<lambda>nc. length (snd nc) = len data) (columns data)"

text \<open>Positional selection \<^verbatim>\<open>data.iloc[positions]\<close>: the rows at the given positions, in the
  order of the positions; a position beyond the last row raises IndexError.\<close>

definition take_rows :: "nat list \<Rightarrow> 'a list \<Rightarrow> 'a list" where
  "take_rows positions xs = map (\<lambda>p. xs ! p) positions"

definition rows_at :: "('i, 'v) dataframe \<Rightarrow> nat list \<Rightarrow> ('i, 'v) dataframe" where
  "rows_at data positions =
     \<lparr>index = take_rows positions (index data),
      columns = map (\<lambda>nc. (fst nc, take_rows positions (snd nc))) (columns data)\<rparr>"

definition iloc :: "('i, 'v) dataframe \<Rightarrow> nat list \<Rightarrow> py_error + ('i, 'v) dataframe" where
  "iloc data positions =
     (if list_all (\<lambda>p. p < len data) positions
      then Inr (rows_at data positions)
      else Inl IndexError)"

text \<open>
  Column access \<^verbatim>\<open>data[name]\<close>, as the one column of that name: KeyError when the frame
  has no such column. pandas allows several columns of one name; \<^verbatim>\<open>data[name]\<close> is then
  a frame of these columns and not a column, and the code that goes on to use it as a mask
  of the rows raises IndexingError.
\<close>

definition get_column :: "('i, 'v) dataframe \<Rightarrow> string \<Rightarrow> py_error + 'v list" where
  "get_column data name =
     (case filter (\<lambda>nc. fst nc = name) (columns data) of
        [] \<Rightarrow> Inl KeyError
      | [nc] \<Rightarrow> Inr (snd nc)
      | _ \<Rightarrow> Inl IndexingError)"

text \<open>Boolean selection \<^verbatim>\<open>data.loc[mask]\<close>: the rows whose mask entry is true, in the order
  of the frame.\<close>

definition select_mask :: "bool list \<Rightarrow> 'a list \<Rightarrow> 'a list" where
  "select_mask flags xs = map snd (filter fst (zip flags xs))"

definition loc :: "('i, 'v) dataframe \<Rightarrow> bool list \<Rightarrow> ('i, 'v) dataframe" where
  "loc data flags =
     \<lparr>index = select_mask flags (index data),
      columns = map (\<lambda>nc. (fst nc, select_mask flags (snd nc))) (columns data)\<rparr>"

text \<open>\<^verbatim>\<open>series.apply(f)\<close> and an elementwise operation on arrays: the results in order;
  the first call that raises ends it.\<close>

fun apply_each :: "('a \<Rightarrow> py_error + 'b) \<Rightarrow> 'a list \<Rightarrow> py_error + 'b list" where
  "apply_each f [] = Inr []"
| "apply_each f (x # xs) =
     (case f x of
        Inl e \<Rightarrow> Inl e
      | Inr y \<Rightarrow> (case apply_each f xs of Inl e \<Rightarrow> Inl e | Inr ys \<Rightarrow> Inr (y # ys)))"

subsection \<open>Python's slices\<close>

text \<open>\<^verbatim>\<open>xs[:k]\<close> and \<^verbatim>\<open>xs[k:]\<close>: a negative \<open>k\<close> counts from the end, and both
  clamp to the ends of the list.\<close>

definition slice_to :: "'a list \<Rightarrow> int \<Rightarrow> 'a list" where
  "slice_to xs k = (if k < 0 then take (length xs - nat (- k)) xs else take (nat k) xs)"

definition slice_from :: "'a list \<Rightarrow> int \<Rightarrow> 'a list" where
  "slice_from xs k = (if k < 0 then drop (length xs - nat (- k)) xs else drop (nat k) xs)"

subsection \<open>The random split (lines 37-42)\<close>

text \<open>
  \<^verbatim>\<open>np.random.permutation(len(data))\<close> returns the numbers \<open>0, \<dots>, len(data) - 1\<close> in a
  random order. The draw is the argument \<open>shuffled_indices\<close>; what NumPy guarantees of it
  is \<open>is_permutation\<close>.
\<close>

definition is_permutation :: "nat list \<Rightarrow> nat \<Rightarrow> bool" where
  "is_permutation shuffled_indices n \<longleftrightarrow> sort shuffled_indices = [0..<n]"

text \<open>\<^verbatim>\<open>int(n * test_ratio)\<close> (line 39), for a float \<open>test_ratio\<close>: \<open>n\<close> is converted
  to a double, the product of the two floats is rounded to a double, and \<^verbatim>\<open>int\<close>
  truncates it. An infinite product raises OverflowError, and a NaN ratio ValueError.\<close>

definition size_of_ratio :: "nat \<Rightarrow> np_float \<Rightarrow> py_error + int" where
  "size_of_ratio n test_ratio =
     (case float_of_int (int n) of
        Inl e \<Rightarrow> Inl e
      | Inr x \<Rightarrow> py_int (float_mul (Finite x) test_ratio))"

definition split_train_test ::
  "nat list \<Rightarrow> ('i, 'v) dataframe \<Rightarrow> np_float
     \<Rightarrow> py_error + (('i, 'v) dataframe \<times> ('i, 'v) dataframe)" where
  "split_train_test shuffled_indices data test_ratio =
     (case size_of_ratio (len data) test_ratio of
        Inl e \<Rightarrow> Inl e
      | Inr test_set_size \<Rightarrow>
          (let test_indices = slice_to shuffled_indices test_set_size;
               train_indices = slice_from shuffled_indices test_set_size
           in case iloc data train_indices of
                Inl e \<Rightarrow> Inl e
              | Inr train \<Rightarrow>
                  (case iloc data test_indices of
                     Inl e \<Rightarrow> Inl e
                   | Inr test \<Rightarrow> Inr (train, test))))"

subsection \<open>The hash-based split (lines 52-59)\<close>

text \<open>
  \<^verbatim>\<open>crc32(np.int64(identifier)) & 0xffffffff < test_ratio * 2 ** 32\<close>. The two library
  functions are arguments: \<open>np_int64\<close> converts the identifier to a 64-bit integer, or
  raises (ValueError on NaN, OverflowError beyond 64 bits), and \<open>crc32\<close> maps the buffer
  of that integer to a Python \<^verbatim>\<open>int\<close>. The ratio is a finite double, the \<open>real\<close> it
  denotes: its product with \<open>2 ^ 32\<close> is exact (or, beyond the largest double, an
  infinity of its sign, which compares in the same way), and Python compares an
  \<^verbatim>\<open>int\<close> with a float exactly.
\<close>

definition test_set_check ::
  "('b \<Rightarrow> int) \<Rightarrow> ('v \<Rightarrow> py_error + 'b) \<Rightarrow> 'v \<Rightarrow> real \<Rightarrow> py_error + bool" where
  "test_set_check crc32 np_int64 identifier test_ratio =
     (case np_int64 identifier of
        Inl e \<Rightarrow> Inl e
      | Inr w \<Rightarrow> Inr (real_of_int (crc32 w AND 0xffffffff) < test_ratio * 2 ^ 32))"

definition split_train_test_by_id ::
  "('b \<Rightarrow> int) \<Rightarrow> ('v \<Rightarrow> py_error + 'b) \<Rightarrow> ('i, 'v) dataframe \<Rightarrow> real \<Rightarrow> string
     \<Rightarrow> py_error + (('i, 'v) dataframe \<times> ('i, 'v) dataframe)" where
  "split_train_test_by_id crc32 np_int64 data test_ratio id_column =
     (case get_column data id_column of
        Inl e \<Rightarrow> Inl e
      | Inr ids \<Rightarrow>
          (case apply_each (\<lambda>id'. test_set_check crc32 np_int64 id' test_ratio) ids of
             Inl e \<Rightarrow> Inl e
           | Inr in_test_set \<Rightarrow> Inr (loc data (map Not in_test_set), loc data in_test_set)))"

subsection \<open>The income category (lines 78-80)\<close>

fun float_less :: "np_float \<Rightarrow> np_float \<Rightarrow> bool" where
  "float_less (Finite a) (Finite b) \<longleftrightarrow> a < b"
| "float_less (Finite a) PosInf \<longleftrightarrow> True"
| "float_less NegInf (Finite b) \<longleftrightarrow> True"
| "float_less NegInf PosInf \<longleftrightarrow> True"
| "float_less x y \<longleftrightarrow> False"

definition float_le :: "np_float \<Rightarrow> np_float \<Rightarrow> bool" where
  "float_le x y \<longleftrightarrow> float_less x y \<or> (x = y \<and> x \<noteq> NaN)"

text \<open>
  Modelled from the spec: \<^verbatim>\<open>pd.cut\<close> is pandas code, which the script only calls. It
  bins a value into the ordered labelled ranges between consecutive edges; as the source
  passes neither \<^verbatim>\<open>right\<close> nor \<^verbatim>\<open>include_lowest\<close>, a range is open at its lower
  edge and closed at its upper edge, and a value in no range gets no label (a missing
  value). The edges and the labels are arguments; the source's are \<open>bins\<close> and \<open>labels\<close>.
\<close>

definition in_bin :: "np_float \<Rightarrow> np_float \<Rightarrow> np_float \<Rightarrow> bool" where
  "in_bin x lo hi \<longleftrightarrow> float_less lo x \<and> float_le x hi"

fun pd_cut :: "np_float \<Rightarrow> np_float list \<Rightarrow> 'l list \<Rightarrow> 'l option" where
  "pd_cut x (lo # hi # edges) (l # ls) =
     (if in_bin x lo hi then Some l else pd_cut x (hi # edges) ls)"
| "pd_cut x edges ls = None"

definition bins :: "np_float list" where
  "bins = [Finite 0, Finite 1.5, Finite 3.0, Finite 4.5, Finite 6, PosInf]"

definition labels :: "nat list" where
  "labels = [1, 2, 3, 4, 5]"

definition income_cat :: "np_float \<Rightarrow> nat option" where
  "income_cat median_income = pd_cut median_income bins labels"

subsection \<open>The median imputer (lines 164-181)\<close>

text \<open>
  Modelled from the spec: \<^verbatim>\<open>SimpleImputer\<close> is scikit-learn code, which the script only
  constructs (\<^verbatim>\<open>strategy="median"\<close>) and calls (\<^verbatim>\<open>fit\<close>, then \<^verbatim>\<open>transform\<close>). By the
  spec, fit learns per numeric column the median of the fit-time data, and transform
  replaces the missing values of a column by the learned median. A table is the list of
  its columns; a missing value is \<open>None\<close>. The median is the middle of the sorted observed
  values, the mean of the two middle ones when their number is even; a column without an
  observed value has no median, and its missing values stay missing.
\<close>

definition observed :: "real option list \<Rightarrow> real list" where
  "observed column = map the (filter (\<lambda>x. x \<noteq> None) column)"

definition median :: "real list \<Rightarrow> real" where
  "median xs =
     (let s = sort xs; n = length s
      in if odd n then s ! (n div 2) else (s ! (n div 2 - 1) + s ! (n div 2)) / 2)"

definition SimpleImputer_fit :: "real option list list \<Rightarrow> real option list" where
  "SimpleImputer_fit X =
     map (\<lambda>column. if observed column = [] then None else Some (median (observed column))) X"

definition impute :: "real option \<Rightarrow> real option list \<Rightarrow> real option list" where
  "impute statistic column = map (\<lambda>x. case x of None \<Rightarrow> statistic | Some v \<Rightarrow> Some v) column"

definition SimpleImputer_transform ::
  "real option list \<Rightarrow> real option list list \<Rightarrow> real option list list" where
  "SimpleImputer_transform statistics X = map2 impute statistics X"

subsection \<open>The ratios of columns (lines 136-138)\<close>

text \<open>
  \<^verbatim>\<open>housing["total_rooms"] / housing["households"]\<close>, and likewise
  \<^verbatim>\<open>total_bedrooms / total_rooms\<close> and \<^verbatim>\<open>population / households\<close>: two columns of one
  frame, which have one entry per row, are divided entry by entry. How two entries are
  divided depends on the dtype and is the argument \<open>np_divide\<close>: \<open>float64_divide\<close> for
  float64 columns and arrays, where the division raises nothing, and \<open>object_divide\<close>
  for an array of dtype object that holds Python floats, where Python's own \<^verbatim>\<open>/\<close>
  raises ZeroDivisionError on a zero divisor.
\<close>

definition float64_divide :: "np_float \<Rightarrow> np_float \<Rightarrow> py_error + np_float" where
  "float64_divide a b = Inr (float_div a b)"

definition object_divide :: "np_float \<Rightarrow> np_float \<Rightarrow> py_error + np_float" where
  "object_divide a b = (if b = Finite 0 then Inl ZeroDivisionError else Inr (float_div a b))"

definition divide_each ::
  "('a \<Rightarrow> 'a \<Rightarrow> py_error + 'a) \<Rightarrow> 'a list \<Rightarrow> 'a list \<Rightarrow> py_error + 'a list" where
  "divide_each np_divide numerators denominators =
     apply_each (\<lambda>ab. np_divide (fst ab) (snd ab)) (zip numerators denominators)"

subsection \<open>The attribute adder (lines 209-226)\<close>

text \<open>
  A two-dimensional NumPy array: its number of columns and its rows, each row with that
  many entries.
\<close>

record 'a ndarray =
  ncols :: nat
  rows :: "'a list list"

definition wf_ndarray :: "'a ndarray \<Rightarrow> bool" where
  "wf_ndarray X \<longleftrightarrow> list_all (\<lambda>r. length r = ncols X) (rows X)"

text \<open>\<^verbatim>\<open>X[:, k]\<close>: the column at position \<open>k\<close>; IndexError beyond the last column.\<close>

definition get_col :: "'a ndarray \<Rightarrow> nat \<Rightarrow> py_error + 'a list" where
  "get_col X k = (if k < ncols X then Inr (map (\<lambda>r. r ! k) (rows X)) else Inl IndexError)"

text \<open>\<^verbatim>\<open>np.c_[X, c1, ..., cn]\<close>: the columns \<open>c1, \<dots>, cn\<close> appended to the right of \<open>X\<close>;
  ValueError when a column has not one entry per row.\<close>

definition np_c :: "'a ndarray \<Rightarrow> 'a list list \<Rightarrow> py_error + 'a ndarray" where
  "np_c X cs =
     (if list_all (\<lambda>c. length c = length (rows X)) cs
      then Inr \<lparr>ncols = ncols X + length cs,
                rows = map (\<lambda>i. rows X ! i @ map (\<lambda>c. c ! i) cs) [0..<length (rows X)]\<rparr>
      else Inl ValueError)"

definition rooms_ix :: nat where "rooms_ix = 3"
definition bedroom_ix :: nat where "bedroom_ix = 4"
definition population_ix :: nat where "population_ix = 5"
definition households_ix :: nat where "households_ix = 6"

record CombinedAttributesAdder =
  add_bedrooms_per_room :: bool

definition fit :: "CombinedAttributesAdder \<Rightarrow> 'x \<Rightarrow> 'y \<Rightarrow> CombinedAttributesAdder" where
  "fit self X y = self"

text \<open>\<^verbatim>\<open>X[:, i] / X[:, j]\<close>: the two columns are read, then divided entry by entry.\<close>

definition divide_cols ::
  "('a \<Rightarrow> 'a \<Rightarrow> py_error + 'a) \<Rightarrow> 'a ndarray \<Rightarrow> nat \<Rightarrow> nat \<Rightarrow> py_error + 'a list" where
  "divide_cols np_divide X i j =
     (case get_col X i of
        Inl e \<Rightarrow> Inl e
      | Inr numerators \<Rightarrow>
          (case get_col X j of
             Inl e \<Rightarrow> Inl e
           | Inr denominators \<Rightarrow> divide_each np_divide numerators denominators))"

definition transform ::
  "('a \<Rightarrow> 'a \<Rightarrow> py_error + 'a) \<Rightarrow> CombinedAttributesAdder \<Rightarrow> 'a ndarray
     \<Rightarrow> py_error + 'a ndarray" where
  "transform np_divide self X =
     (case divide_cols np_divide X rooms_ix households_ix of
        Inl e \<Rightarrow> Inl e
      | Inr rooms_per_household \<Rightarrow>
          (case divide_cols np_divide X population_ix households_ix of
             Inl e \<Rightarrow> Inl e
           | Inr population_per_household \<Rightarrow>
               if add_bedrooms_per_room self
               then (case divide_cols np_divide X bedroom_ix rooms_ix of
                       Inl e \<Rightarrow> Inl e
                     | Inr bedrooms_per_room \<Rightarrow>
                         np_c X [rooms_per_household, population_per_household,
                                 bedrooms_per_room])
               else np_c X [rooms_per_household, population_per_household]))"

section \<open>Properties of the floats\<close>




lemma round_double_not_NaN: "round_double x \<noteq> NaN"
  by (simp add: round_double_def Let_def)







section \<open>Properties of the splitters\<close>

subsection \<open>Slices, positional and boolean selection\<close>

lemma slice_to_from: "slice_to xs k @ slice_from xs k = xs"
  by (simp add: slice_to_def slice_from_def)


lemma is_permutation_mset: "is_permutation ps n \<Longrightarrow> mset ps = mset [0..<n]"
  unfolding is_permutation_def by (metis mset_sort)

lemma is_permutation_bound: "is_permutation ps n \<Longrightarrow> p \<in> set ps \<Longrightarrow> p < n"
  using is_permutation_mset [of ps n] by (metis atLeastLessThan_iff set_mset_mset set_upt)


lemma iloc_sublist:
  assumes "is_permutation ps (len data)" and "set qs \<subseteq> set ps"
  shows "iloc data qs = Inr (rows_at data qs)"
  using assms by (auto simp: iloc_def list_all_iff dest: is_permutation_bound)

lemma mset_take_rows:
  assumes "mset ps = mset [0..<length xs]"
  shows "mset (take_rows ps xs) = mset xs"
proof -
  have "mset (take_rows ps xs) = image_mset ((!) xs) (mset ps)"
    by (simp add: take_rows_def)
  also have "\<dots> = mset (map ((!) xs) [0..<length xs])"
    using assms by simp
  also have "\<dots> = mset xs"
    by (simp add: map_nth)
  finally show ?thesis .
qed

lemma take_rows_append: "take_rows (ps @ qs) xs = take_rows ps xs @ take_rows qs xs"
  by (simp add: take_rows_def)

lemma select_mask_Cons:
  "select_mask (b # bs) (x # xs) = (if b then x # select_mask bs xs else select_mask bs xs)"
  by (simp add: select_mask_def)

lemma select_mask_Nil: "select_mask [] xs = []" "select_mask bs [] = []"
  by (simp_all add: select_mask_def)

lemma mset_select_mask:
  "length bs = length xs \<Longrightarrow>
     mset (select_mask (map Not bs) xs) + mset (select_mask bs xs) = mset xs"
  by (induction bs xs rule: list_induct2) (simp_all add: select_mask_Cons select_mask_Nil)

lemma subseq_select_mask: "subseq (select_mask bs xs) xs"
proof (induction bs arbitrary: xs)
  case Nil
  then show ?case by (simp add: select_mask_Nil)
next
  case (Cons b bs)
  then show ?case by (cases xs) (auto simp: select_mask_Cons select_mask_Nil)
qed


lemma select_mask_map: "select_mask (map P xs) xs = filter P xs"
  by (induction xs) (simp_all add: select_mask_Cons select_mask_Nil)

lemma partition_sets:
  assumes "mset xs + mset ys = mset zs"
  shows "set xs \<union> set ys = set zs" and "distinct zs \<Longrightarrow> set xs \<inter> set ys = {}"
proof -
  have eq: "mset (xs @ ys) = mset zs"
    using assms by simp
  show "set xs \<union> set ys = set zs"
    using mset_eq_setD [OF eq] by simp
  show "set xs \<inter> set ys = {}" if "distinct zs"
    using that mset_eq_imp_distinct_iff [OF eq] by simp
qed




lemma index_rows_at: "index (rows_at data ps) = take_rows ps (index data)"
  by (simp add: rows_at_def)

lemma index_loc: "index (loc data flags) = select_mask flags (index data)"
  by (simp add: loc_def)

lemma split_train_test_slices:
  assumes "is_permutation ps (len data)"
  shows "split_train_test ps data r =
           (case size_of_ratio (len data) r of
              Inl e \<Rightarrow> Inl e
            | Inr k \<Rightarrow> Inr (rows_at data (slice_from ps k), rows_at data (slice_to ps k)))"
proof (cases "size_of_ratio (len data) r")
  case (Inl e)
  then show ?thesis by (simp add: split_train_test_def)
next
  case (Inr k)
  have "set (slice_from ps k) \<subseteq> set ps" "set (slice_to ps k) \<subseteq> set ps"
    by (auto simp: slice_from_def slice_to_def dest: in_set_dropD in_set_takeD)
  then show ?thesis
    using assms Inr by (simp add: split_train_test_def iloc_sublist Let_def)
qed

lemma get_column_Inr:
  "get_column data name = Inr c \<longleftrightarrow> filter (\<lambda>nc. fst nc = name) (columns data) = [(name, c)]"
proof
  assume "get_column data name = Inr c"
  then obtain nc where nc: "filter (\<lambda>nc. fst nc = name) (columns data) = [nc]" and c: "snd nc = c"
    by (auto simp: get_column_def split: list.splits)
  from nc have "nc \<in> set (filter (\<lambda>nc. fst nc = name) (columns data))"
    by simp
  then have "fst nc = name" by simp
  with nc c show "filter (\<lambda>nc. fst nc = name) (columns data) = [(name, c)]"
    by (cases nc) simp
next
  assume "filter (\<lambda>nc. fst nc = name) (columns data) = [(name, c)]"
  then show "get_column data name = Inr c"
    by (simp add: get_column_def)
qed

lemma get_column_length:
  assumes "wf_dataframe data" and "get_column data name = Inr c"
  shows "length c = len data"
proof -
  from assms(2) have "(name, c) \<in> set (filter (\<lambda>nc. fst nc = name) (columns data))"
    by (simp add: get_column_Inr)
  then have "(name, c) \<in> set (columns data)" by simp
  with assms(1) show ?thesis
    by (auto simp: wf_dataframe_def list_all_iff)
qed



lemma apply_each_Inr: "apply_each f xs = Inr ys \<longleftrightarrow> map f xs = map Inr ys"
proof (induction xs arbitrary: ys)
  case Nil
  then show ?case by auto
next
  case (Cons x xs)
  show ?case
  proof (cases ys)
    case Nil
    then show ?thesis by (simp split: sum.splits)
  next
    case (Cons y ys')
    then show ?thesis
      using Cons.IH [of ys'] by (auto split: sum.splits)
  qed
qed


lemma apply_each_test_set_check:
  assumes "map np_int64 ids = map Inr ws"
  shows "apply_each (\<lambda>i. test_set_check crc32 np_int64 i test_ratio) ids =
           Inr (map (\<lambda>w. real_of_int (crc32 w AND 0xffffffff) < test_ratio * 2 ^ 32) ws)"
proof -
  have "length ids = length ws"
    using assms by (metis length_map)
  then have "map (\<lambda>i. test_set_check crc32 np_int64 i test_ratio) ids =
      map Inr (map (\<lambda>w. real_of_int (crc32 w AND 0xffffffff) < test_ratio * 2 ^ 32) ws)"
    using assms
  proof (induction ids ws rule: list_induct2)
    case Nil
    then show ?case by simp
  next
    case (Cons i ids w ws)
    then show ?case by (simp add: test_set_check_def)
  qed
  then show ?thesis by (simp add: apply_each_Inr)
qed


lemma split_train_test_by_id_loc:
  assumes "get_column data id_column = Inr ids" and "map np_int64 ids = map Inr ws"
  shows "split_train_test_by_id crc32 np_int64 data test_ratio id_column =
           Inr (loc data (map (\<lambda>w. \<not> real_of_int (crc32 w AND 0xffffffff) < test_ratio * 2 ^ 32) ws),
                loc data (map (\<lambda>w. real_of_int (crc32 w AND 0xffffffff) < test_ratio * 2 ^ 32) ws))"
  using assms apply_each_test_set_check [OF assms(2), of crc32 test_ratio]
  by (simp add: split_train_test_by_id_def comp_def)

lemma bitlen_numeral_eval:
  "bitlen (numeral k) = bitlen (numeral k div 2) + 1" "bitlen 1 = 1"
  by (subst compute_bitlen, simp)+

text \<open>Facts that evaluate a rounding at a numeral.\<close>

lemmas float_eval =
  round_double_def floor_log2_def round_half_even_def pow2_def Let_def bitlen_numeral_eval

lemmas size_of_ratio_eval =
  size_of_ratio_def float_of_int_def py_int_def trunc_toward_zero_def float_eval


subsection \<open>The random split\<close>





subsection \<open>The hash-based split\<close>









subsection \<open>Both splits partition the rows\<close>

lemma random_split_partition:
  assumes "is_permutation ps (len data)" and "size_of_ratio (len data) r = Inr k"
  shows "\<exists>train test. split_train_test ps data r = Inr (train, test) \<and>
           index test @ index train = take_rows ps (index data) \<and>
           mset (index train) + mset (index test) = mset (index data)"
proof -
  let ?train = "rows_at data (slice_from ps k)" and ?test = "rows_at data (slice_to ps k)"
  have order: "index ?test @ index ?train = take_rows ps (index data)"
    by (simp add: index_rows_at slice_to_from flip: take_rows_append)
  have "mset ps = mset [0..<length (index data)]"
    using is_permutation_mset [OF assms(1)] by (simp add: len_def)
  then have "mset (take_rows ps (index data)) = mset (index data)"
    by (rule mset_take_rows)
  with order have "mset (index ?train) + mset (index ?test) = mset (index data)"
    by (metis add.commute mset_append)
  moreover have "split_train_test ps data r = Inr (?train, ?test)"
    using split_train_test_slices [OF assms(1), of r] assms(2) by simp
  ultimately show ?thesis
    using order by blast
qed

lemma hash_split_partition:
  assumes "wf_dataframe data" and "get_column data id_column = Inr ids"
    and "map np_int64 ids = map Inr ws"
  shows "\<exists>train test.
           split_train_test_by_id crc32 np_int64 data r id_column = Inr (train, test) \<and>
           mset (index train) + mset (index test) = mset (index data) \<and>
           subseq (index train) (index data) \<and> subseq (index test) (index data)"
proof -
  let ?flags = "map (\<lambda>w. real_of_int (crc32 w AND 0xffffffff) < r * 2 ^ 32) ws"
  have "length ids = length (index data)"
    using get_column_length [OF assms(1,2)] by (simp add: len_def)
  then have "length ?flags = length (index data)"
    using assms(3) by (metis length_map)
  then have "mset (index (loc data (map Not ?flags))) + mset (index (loc data ?flags)) =
      mset (index data)"
    unfolding index_loc by (rule mset_select_mask)
  moreover have "subseq (index (loc data (map Not ?flags))) (index data)"
      "subseq (index (loc data ?flags)) (index data)"
    unfolding index_loc by (rule subseq_select_mask)+
  ultimately show ?thesis
    using split_train_test_by_id_loc [OF assms(2,3), of crc32 r] by (simp add: comp_def)
qed

text \<open>
  Claim C1, amended. For every table and both strategies of the script, whenever the
  split is defined (the random split: the size \<open>int(N * ratio)\<close> does not overflow; the
  hash-based split: the table has one column of the identifier name and every identifier
  converts to a 64-bit integer) it returns a train and a test table whose row labels
  partition the row labels of the source: as multisets they add up to the source's labels,
  their union is the source's label set, and when the source's labels are distinct no label
  is on both sides. The hash-based split keeps the source order within each output (each
  output's labels are a subsequence of the source's). The random split does not: its
  outputs list the rows in the order of the drawn permutation, the test rows first.
\<close>

theorem splits_partition_rows:
  assumes "wf_dataframe data"
  shows "(\<forall>k. is_permutation shuffled_indices (len data) \<and>
              size_of_ratio (len data) test_ratio = Inr k \<longrightarrow>
            (\<exists>train test.
               split_train_test shuffled_indices data test_ratio = Inr (train, test) \<and>
               set (index train) \<union> set (index test) = set (index data) \<and>
               (distinct (index data) \<longrightarrow> set (index train) \<inter> set (index test) = {}) \<and>
               mset (index train) + mset (index test) = mset (index data) \<and>
               index test @ index train = take_rows shuffled_indices (index data))) \<and>
         (\<forall>ids ws. get_column data id_column = Inr ids \<and> map np_int64 ids = map Inr ws \<longrightarrow>
            (\<exists>train test.
               split_train_test_by_id crc32 np_int64 data test_ratio' id_column = Inr (train, test) \<and>
               set (index train) \<union> set (index test) = set (index data) \<and>
               (distinct (index data) \<longrightarrow> set (index train) \<inter> set (index test) = {}) \<and>
               mset (index train) + mset (index test) = mset (index data) \<and>
               subseq (index train) (index data) \<and> subseq (index test) (index data)))"
proof (intro conjI impI allI)
  fix k
  assume "is_permutation shuffled_indices (len data) \<and>
      size_of_ratio (len data) test_ratio = Inr k"
  then obtain train test where
    "split_train_test shuffled_indices data test_ratio = Inr (train, test)"
    "index test @ index train = take_rows shuffled_indices (index data)"
    "mset (index train) + mset (index test) = mset (index data)"
    using random_split_partition by blast
  then show "\<exists>train test.
      split_train_test shuffled_indices data test_ratio = Inr (train, test) \<and>
      set (index train) \<union> set (index test) = set (index data) \<and>
      (distinct (index data) \<longrightarrow> set (index train) \<inter> set (index test) = {}) \<and>
      mset (index train) + mset (index test) = mset (index data) \<and>
      index test @ index train = take_rows shuffled_indices (index data)"
    using partition_sets [of "index train" "index test" "index data"] by blast
next
  fix ids ws
  assume "get_column data id_column = Inr ids \<and> map np_int64 ids = map Inr ws"
  with assms obtain train test where
    "split_train_test_by_id crc32 np_int64 data test_ratio' id_column = Inr (train, test)"
    "mset (index train) + mset (index test) = mset (index data)"
    "subseq (index train) (index data)" "subseq (index test) (index data)"
    using hash_split_partition by blast
  then show "\<exists>train test.
      split_train_test_by_id crc32 np_int64 data test_ratio' id_column = Inr (train, test) \<and>
      set (index train) \<union> set (index test) = set (index data) \<and>
      (distinct (index data) \<longrightarrow> set (index train) \<inter> set (index test) = {}) \<and>
      mset (index train) + mset (index test) = mset (index data) \<and>
      subseq (index train) (index data) \<and> subseq (index test) (index data)"
    using partition_sets [of "index train" "index test" "index data"] by blast
qed

theorem splits_partition_rows_witness:
  "wf_dataframe \<lparr>index = [10, 11, 12 :: nat], columns = [(''index'', [0, 1, 2 :: int])]\<rparr> \<and>
   is_permutation [2, 0, 1]
     (len \<lparr>index = [10, 11, 12 :: nat], columns = [(''index'', [0, 1, 2 :: int])]\<rparr>) \<and>
   size_of_ratio
     (len \<lparr>index = [10, 11, 12 :: nat], columns = [(''index'', [0, 1, 2 :: int])]\<rparr>)
     (Finite (1 / 2)) = Inr 1 \<and>
   get_column \<lparr>index = [10, 11, 12 :: nat], columns = [(''index'', [0, 1, 2 :: int])]\<rparr> ''index'' =
     Inr [0, 1, 2] \<and>
   map (\<lambda>i :: int. if - (2 ^ 63) \<le> i \<and> i < 2 ^ 63 then Inr i else Inl OverflowError) [0, 1, 2] =
     map Inr [0, 1, 2] \<and>
   distinct (index \<lparr>index = [10, 11, 12 :: nat], columns = [(''index'', [0, 1, 2 :: int])]\<rparr>) \<and>
   (\<exists>train test.
      split_train_test [2, 0, 1]
        \<lparr>index = [10, 11, 12 :: nat], columns = [(''index'', [0, 1, 2 :: int])]\<rparr>
        (Finite (1 / 2)) = Inr (train, test) \<and>
      set (index train) \<union> set (index test) = {10, 11, 12} \<and>
      set (index train) \<inter> set (index test) = {}) \<and>
   (\<exists>train test.
      split_train_test_by_id
        (\<lambda>w :: int. if w = 0 then 1696784233 else if w = 1 then 2844319735 else 654825492)
        (\<lambda>i :: int. if - (2 ^ 63) \<le> i \<and> i < 2 ^ 63 then Inr i else Inl OverflowError)
        \<lparr>index = [10, 11, 12 :: nat], columns = [(''index'', [0, 1, 2 :: int])]\<rparr> (1 / 2) ''index'' =
        Inr (train, test) \<and>
      set (index train) \<union> set (index test) = {10, 11, 12} \<and>
      set (index train) \<inter> set (index test) = {} \<and>
      subseq (index train) [10, 11, 12] \<and> subseq (index test) [10, 11, 12])"
proof -
  let ?data = "\<lparr>index = [10, 11, 12 :: nat], columns = [(''index'', [0, 1, 2 :: int])]\<rparr>"
  let ?crc32 = "\<lambda>w :: int. if w = 0 then 1696784233 else if w = 1 then 2844319735 else (654825492 :: int)"
  let ?np_int64 = "\<lambda>i :: int. if - (2 ^ 63) \<le> i \<and> i < 2 ^ 63 then Inr i
           else (Inl OverflowError :: py_error + int)"
  have wf: "wf_dataframe ?data"
    by (simp add: wf_dataframe_def len_def)
  have len: "len ?data = 3"
    by (simp add: len_def)
  have perm: "is_permutation [2, 0, 1] (len ?data)"
    unfolding len by code_simp
  have size: "size_of_ratio (len ?data) (Finite (1 / 2)) = Inr 1"
    unfolding len by (simp add: size_of_ratio_eval)
  have col: "get_column ?data ''index'' = Inr [0, 1, 2]"
    by (simp add: get_column_def)
  have conv: "map ?np_int64 [0, 1, 2] = map Inr [0, 1, 2]"
    by simp
  have labels: "distinct (index ?data)"
    by simp
  note inst = splits_partition_rows [OF wf, of "[2, 0, 1]" "Finite (1 / 2)" "''index''" ?np_int64 ?crc32 "1 / 2"]
  from inst perm size have "\<exists>train test.
      split_train_test [2, 0, 1] ?data (Finite (1 / 2)) = Inr (train, test) \<and>
      set (index train) \<union> set (index test) = set (index ?data) \<and>
      (distinct (index ?data) \<longrightarrow> set (index train) \<inter> set (index test) = {})"
    by blast
  then have random: "\<exists>train test.
      split_train_test [2, 0, 1] ?data (Finite (1 / 2)) = Inr (train, test) \<and>
      set (index train) \<union> set (index test) = {10, 11, 12} \<and>
      set (index train) \<inter> set (index test) = {}"
    by simp
  from inst col conv have "\<exists>train test.
      split_train_test_by_id ?crc32 ?np_int64 ?data (1 / 2) ''index'' = Inr (train, test) \<and>
      set (index train) \<union> set (index test) = set (index ?data) \<and>
      (distinct (index ?data) \<longrightarrow> set (index train) \<inter> set (index test) = {}) \<and>
      subseq (index train) (index ?data) \<and> subseq (index test) (index ?data)"
    by blast
  then have hash: "\<exists>train test.
      split_train_test_by_id ?crc32 ?np_int64 ?data (1 / 2) ''index'' = Inr (train, test) \<and>
      set (index train) \<union> set (index test) = {10, 11, 12} \<and>
      set (index train) \<inter> set (index test) = {} \<and>
      subseq (index train) [10, 11, 12] \<and> subseq (index test) [10, 11, 12]"
    by simp
  from wf perm size col conv labels random hash show ?thesis
    by blast
qed

text \<open>
  Claim C1 as stated fails for the random split: on a table of four rows, with the
  permutation \<open>[3, 2, 1, 0]\<close> and the ratio \<open>1/2\<close>, the train table holds the rows labelled
  \<open>1, 0\<close> and the test table the rows labelled \<open>3, 2\<close>, in that order, which is not their
  order in the source.
\<close>

theorem random_split_order_counterexample:
  "is_permutation [3, 2, 1, 0]
     (len \<lparr>index = [0, 1, 2, 3 :: nat], columns = [(''households'', [4, 5, 6, 7 :: int])]\<rparr>) \<and>
   split_train_test [3, 2, 1, 0]
     \<lparr>index = [0, 1, 2, 3 :: nat], columns = [(''households'', [4, 5, 6, 7 :: int])]\<rparr>
     (Finite (1 / 2)) =
   Inr (\<lparr>index = [1, 0], columns = [(''households'', [5, 4])]\<rparr>,
        \<lparr>index = [3, 2], columns = [(''households'', [7, 6])]\<rparr>) \<and>
   \<not> subseq [1, 0 :: nat] [0, 1, 2, 3] \<and> \<not> subseq [3, 2 :: nat] [0, 1, 2, 3]"
proof -
  let ?data = "\<lparr>index = [0, 1, 2, 3 :: nat], columns = [(''households'', [4, 5, 6, 7 :: int])]\<rparr>"
  have len: "len ?data = 4"
    by (simp add: len_def)
  have perm: "is_permutation [3, 2, 1, 0] (len ?data)"
    unfolding len by code_simp
  have size: "size_of_ratio 4 (Finite (1 / 2)) = Inr 2"
    by (simp add: size_of_ratio_eval)
  have "split_train_test [3, 2, 1, 0] ?data (Finite (1 / 2)) =
      Inr (\<lparr>index = [1, 0], columns = [(''households'', [5, 4])]\<rparr>,
           \<lparr>index = [3, 2], columns = [(''households'', [7, 6])]\<rparr>)"
    unfolding split_train_test_def len size
    by (simp add: slice_to_def slice_from_def iloc_def rows_at_def take_rows_def len_def)
  with perm show ?thesis
    by simp
qed

section \<open>Properties of the income category\<close>

lemma income_cat_cases:
  "income_cat x =
     (if in_bin x (Finite 0) (Finite 1.5) then Some 1
      else if in_bin x (Finite 1.5) (Finite 3) then Some 2
      else if in_bin x (Finite 3) (Finite 4.5) then Some 3
      else if in_bin x (Finite 4.5) (Finite 6) then Some 4
      else if in_bin x (Finite 6) PosInf then Some 5
      else None)"
  by (simp add: income_cat_def bins_def labels_def)

lemma in_bin_Finite:
  "in_bin (Finite v) (Finite a) (Finite b) \<longleftrightarrow> a < v \<and> v \<le> b"
  "in_bin (Finite v) (Finite a) PosInf \<longleftrightarrow> a < v"
  "in_bin PosInf (Finite a) (Finite b) \<longleftrightarrow> False"
  "in_bin PosInf (Finite a) PosInf \<longleftrightarrow> True"
  "in_bin NegInf lo hi \<longleftrightarrow> False"
  "in_bin NaN lo hi \<longleftrightarrow> False"
  by (auto simp: in_bin_def float_le_def)

text \<open>
  Claim C7, amended. The income category bins the median income into five labelled ranges
  \<open>(0, 1.5]\<close>, \<open>(1.5, 3]\<close>, \<open>(3, 4.5]\<close>, \<open>(4.5, 6]\<close>, \<open>(6, +\<infinity>]\<close>, which do not overlap and
  cover the values above 0 up to and including \<open>+\<infinity>\<close>: every such value lies in exactly one
  range and gets the label of that range. A value that is not above 0 (0 itself, a negative
  number, \<open>-\<infinity>\<close>, NaN) lies in no range and gets no label.
\<close>

theorem income_cat_buckets:
  "(float_less (Finite 0) x \<longrightarrow>
      (\<exists>l \<in> {1..5}. income_cat x = Some l \<and> in_bin x (bins ! (l - 1)) (bins ! l) \<and>
         (\<forall>k \<in> {1..5}. k \<noteq> l \<longrightarrow> \<not> in_bin x (bins ! (k - 1)) (bins ! k)))) \<and>
   (\<not> float_less (Finite 0) x \<longrightarrow>
      income_cat x = None \<and> (\<forall>k \<in> {1..5}. \<not> in_bin x (bins ! (k - 1)) (bins ! k)))"
proof -
  have labels: "{1..5::nat} = {1, 2, 3, 4, 5}"
    by auto
  have edges: "bins ! 0 = Finite 0" "bins ! Suc 0 = Finite 1.5" "bins ! 2 = Finite 3"
      "bins ! 3 = Finite 4.5" "bins ! 4 = Finite 6" "bins ! 5 = PosInf"
    by (simp_all add: bins_def)
  show ?thesis
  proof (cases x)
    case (Finite v)
    then show ?thesis
      unfolding labels by (auto simp: income_cat_cases in_bin_Finite edges)
  next
    case PosInf
    then show ?thesis
      unfolding labels by (simp add: income_cat_cases in_bin_Finite edges)
  next
    case NegInf
    then show ?thesis
      unfolding labels by (simp add: income_cat_cases in_bin_Finite edges)
  next
    case NaN
    then show ?thesis
      unfolding labels by (simp add: income_cat_cases in_bin_Finite edges)
  qed
qed

theorem income_cat_buckets_witness:
  "float_less (Finite 0) (Finite 2) \<and> income_cat (Finite 2) = Some 2 \<and>
   float_less (Finite 0) PosInf \<and> income_cat PosInf = Some 5 \<and>
   \<not> float_less (Finite 0) (Finite 0) \<and> income_cat (Finite 0) = None"
proof -
  have labels: "{1..5::nat} = {1, 2, 3, 4, 5}"
    by auto
  have edges: "bins ! 0 = Finite 0" "bins ! Suc 0 = Finite 1.5" "bins ! 2 = Finite 3"
      "bins ! 3 = Finite 4.5" "bins ! 4 = Finite 6" "bins ! 5 = PosInf"
    by (simp_all add: bins_def)
  have "income_cat (Finite 2) = Some 2"
    using income_cat_buckets [of "Finite 2"] unfolding labels
    by (auto simp: in_bin_Finite edges)
  moreover have "income_cat PosInf = Some 5"
    using income_cat_buckets [of PosInf] unfolding labels
    by (auto simp: in_bin_Finite edges)
  moreover have "income_cat (Finite 0) = None"
    using income_cat_buckets [of "Finite 0"] by simp
  ultimately show ?thesis
    by simp
qed

text \<open>
  Claim C7 as stated fails: the lowest edge of the source's bins is 0, not \<open>-\<infinity>\<close>, so
  \<open>-1\<close>, \<open>0\<close> and \<open>-\<infinity>\<close> are assigned no bucket label.
\<close>

theorem income_cat_counterexample:
  "income_cat (Finite (- 1)) = None \<and> income_cat (Finite 0) = None \<and> income_cat NegInf = None"
  by (simp add: income_cat_cases in_bin_Finite)

section \<open>Properties of the median imputer\<close>

lemma impute_Some:
  "impute (Some m) column = map (\<lambda>x. Some (case x of None \<Rightarrow> m | Some v \<Rightarrow> v)) column"
  by (simp add: impute_def option.case_distrib [of Some] cong: option.case_cong)

lemma SimpleImputer_fit_nth:
  assumes "j < length train" and "observed (train ! j) \<noteq> []"
  shows "SimpleImputer_fit train ! j = Some (median (observed (train ! j)))"
  using assms by (simp add: SimpleImputer_fit_def)

lemma SimpleImputer_transform_nth:
  assumes "j < length statistics" and "j < length X"
  shows "SimpleImputer_transform statistics X ! j = impute (statistics ! j) (X ! j)"
  using assms by (simp add: SimpleImputer_transform_def)

text \<open>
  Claim C4. Fitting the imputer on the column \<open>[1, NaN, 3]\<close> learns the median 2;
  transforming that column gives \<open>[1, 2, 3]\<close>, and transforming the other column
  \<open>[NaN, 5]\<close> with the same fitted imputer gives \<open>[2, 5]\<close>: the median of the fit-time data,
  not the median 5 of the transformed data. In general, for every training table, every
  other table and every column with an observed value at fit time, fit learns the median of
  the observed fit-time values of that column, and transform replaces each missing value
  of that column, in any table, by that learned median and keeps every other value.
\<close>

theorem imputer_uses_learned_median:
  "SimpleImputer_fit [[Some 1, None, Some 3]] = [Some 2] \<and>
   SimpleImputer_transform (SimpleImputer_fit [[Some 1, None, Some 3]])
     [[Some 1, None, Some 3]] = [[Some 1, Some 2, Some 3]] \<and>
   SimpleImputer_transform (SimpleImputer_fit [[Some 1, None, Some 3]])
     [[None, Some 5]] = [[Some 2, Some 5]] \<and>
   (\<forall>j. j < length train \<and> j < length X \<and> observed (train ! j) \<noteq> [] \<longrightarrow>
      SimpleImputer_fit train ! j = Some (median (observed (train ! j))) \<and>
      SimpleImputer_transform (SimpleImputer_fit train) X ! j =
        map (\<lambda>x. Some (case x of None \<Rightarrow> median (observed (train ! j)) | Some v \<Rightarrow> v)) (X ! j))"
proof -
  have fit: "SimpleImputer_fit [[Some 1, None, Some 3]] = [Some 2]"
    by (simp add: SimpleImputer_fit_def observed_def median_def)
  have same: "SimpleImputer_transform [Some 2] [[Some 1, None, Some 3]] =
      [[Some 1, Some 2, Some 3]]"
    by (simp add: SimpleImputer_transform_def impute_def)
  have other: "SimpleImputer_transform [Some 2] [[None, Some 5]] = [[Some 2, Some 5]]"
    by (simp add: SimpleImputer_transform_def impute_def)
  have "SimpleImputer_fit train ! j = Some (median (observed (train ! j))) \<and>
      SimpleImputer_transform (SimpleImputer_fit train) X ! j =
        map (\<lambda>x. Some (case x of None \<Rightarrow> median (observed (train ! j)) | Some v \<Rightarrow> v)) (X ! j)"
    if "j < length train" "j < length X" "observed (train ! j) \<noteq> []" for j
  proof -
    have "length (SimpleImputer_fit train) = length train"
      by (simp add: SimpleImputer_fit_def)
    then show ?thesis
      using that SimpleImputer_fit_nth [of j train]
        SimpleImputer_transform_nth [of j "SimpleImputer_fit train" X]
      by (simp add: impute_Some)
  qed
  with fit same other show ?thesis
    by simp
qed

theorem imputer_uses_learned_median_witness:
  "(0::nat) < length [[Some 1, None, Some (3::real)]] \<and>
   (0::nat) < length [[None, Some (5::real)]] \<and>
   observed ([[Some 1, None, Some 3]] ! 0) \<noteq> [] \<and>
   SimpleImputer_fit [[Some 1, None, Some 3]] ! 0 = Some 2 \<and>
   SimpleImputer_transform (SimpleImputer_fit [[Some 1, None, Some 3]]) [[None, Some 5]] ! 0 =
     [Some 2, Some 5]"
proof -
  have obs: "observed [Some 1, None, Some 3] = [1, 3]"
    by (simp add: observed_def)
  have med: "median [1, 3] = 2"
    by (simp add: median_def)
  let ?train = "[[Some 1, None, Some (3::real)]]" and ?X = "[[None, Some (5::real)]]"
  from imputer_uses_learned_median [of ?train ?X]
  have "0 < length ?train \<and> 0 < length ?X \<and> observed (?train ! 0) \<noteq> [] \<longrightarrow>
      SimpleImputer_fit ?train ! 0 = Some (median (observed (?train ! 0))) \<and>
      SimpleImputer_transform (SimpleImputer_fit ?train) ?X ! 0 =
        map (\<lambda>x. Some (case x of None \<Rightarrow> median (observed (?train ! 0)) | Some v \<Rightarrow> v)) (?X ! 0)"
    by blast
  then show ?thesis
    by (simp add: obs med)
qed

section \<open>Properties of the ratios and of the attribute adder\<close>

lemma apply_each_map: "apply_each f (map g xs) = apply_each (\<lambda>x. f (g x)) xs"
  by (induction xs) (simp_all split: sum.splits)

lemma apply_each_all_Inr:
  assumes "\<forall>x \<in> set xs. f x = Inr (g x)"
  shows "apply_each f xs = Inr (map g xs)"
  using assms by (simp add: apply_each_Inr)


lemma divide_each_map:
  "divide_each np_divide (map f xs) (map g xs) = apply_each (\<lambda>x. np_divide (f x) (g x)) xs"
proof -
  have "zip (map f xs) (map g xs) = map (\<lambda>x. (f x, g x)) xs"
    by (induction xs) simp_all
  then show ?thesis
    by (simp add: divide_each_def apply_each_map)
qed

lemma divide_cols_rows:
  assumes "i < ncols X" and "j < ncols X"
  shows "divide_cols np_divide X i j = apply_each (\<lambda>r. np_divide (r ! i) (r ! j)) (rows X)"
  using assms by (simp add: divide_cols_def get_col_def divide_each_map)

lemma np_c_rows:
  "np_c X (map (\<lambda>f. map f (rows X)) fs) =
     Inr \<lparr>ncols = ncols X + length fs, rows = map (\<lambda>r. r @ map (\<lambda>f. f r) fs) (rows X)\<rparr>"
proof -
  have "map (\<lambda>i. rows X ! i @ map (\<lambda>c. c ! i) (map (\<lambda>f. map f (rows X)) fs))
          [0..<length (rows X)] = map (\<lambda>r. r @ map (\<lambda>f. f r) fs) (rows X)"
    by (intro nth_equalityI) (simp_all add: comp_def)
  then show ?thesis
    by (simp add: np_c_def list_all_iff)
qed

lemma np_c_Inr:
  assumes "np_c X cs = Inr Y" and "wf_ndarray X"
  shows "wf_ndarray Y \<and> length (rows Y) = length (rows X) \<and>
         (\<forall>i < length (rows X). take (ncols X) (rows Y ! i) = rows X ! i)"
proof -
  from assms(1) have Y: "Y = \<lparr>ncols = ncols X + length cs,
      rows = map (\<lambda>i. rows X ! i @ map (\<lambda>c. c ! i) cs) [0..<length (rows X)]\<rparr>"
    by (simp add: np_c_def split: if_splits)
  have len: "length (rows X ! i) = ncols X" if "i < length (rows X)" for i
    using assms(2) that by (simp add: wf_ndarray_def list_all_iff)
  show ?thesis
    unfolding Y using len by (auto simp: wf_ndarray_def list_all_iff)
qed

lemma transform_rows:
  assumes "7 \<le> ncols X"
    and "\<forall>r \<in> set (rows X).
           np_divide (r ! 3) (r ! 6) = Inr (rph r) \<and> np_divide (r ! 5) (r ! 6) = Inr (pph r) \<and>
           (add_bedrooms_per_room self \<longrightarrow> np_divide (r ! 4) (r ! 3) = Inr (bpr r))"
  shows "transform np_divide self X =
           Inr \<lparr>ncols = ncols X + (if add_bedrooms_per_room self then 3 else 2),
                rows = map (\<lambda>r. r @ [rph r, pph r]
                                 @ (if add_bedrooms_per_room self then [bpr r] else []))
                         (rows X)\<rparr>"
proof -
  have cols: "divide_cols np_divide X rooms_ix households_ix = Inr (map rph (rows X))"
      "divide_cols np_divide X population_ix households_ix = Inr (map pph (rows X))"
    using assms
    by (simp_all add: divide_cols_rows apply_each_all_Inr rooms_ix_def households_ix_def
        population_ix_def)
  show ?thesis
  proof (cases "add_bedrooms_per_room self")
    case True
    then have "divide_cols np_divide X bedroom_ix rooms_ix = Inr (map bpr (rows X))"
      using assms by (simp add: divide_cols_rows apply_each_all_Inr rooms_ix_def bedroom_ix_def)
    with True show ?thesis
      using np_c_rows [of X "[rph, pph, bpr]"] by (simp add: transform_def cols)
  next
    case False
    then show ?thesis
      using np_c_rows [of X "[rph, pph]"] by (simp add: transform_def cols)
  qed
qed


lemma transform_raises:
  assumes "7 \<le> ncols X"
    and "r \<in> set (rows X)"
    and "np_divide (r ! 3) (r ! 6) = Inl e \<or> np_divide (r ! 5) (r ! 6) = Inl e \<or>
         (add_bedrooms_per_room self \<and> np_divide (r ! 4) (r ! 3) = Inl e)"
  shows "\<exists>e'. transform np_divide self X = Inl e'"
proof (cases "transform np_divide self X")
  case (Inl e')
  then show ?thesis by blast
next
  case (Inr Y)
  let ?d = "\<lambda>i j. apply_each (\<lambda>r. np_divide (r ! i) (r ! j)) (rows X)"
  from Inr assms(1) obtain a b where ab: "?d 3 6 = Inr a" "?d 5 6 = Inr b"
    and c: "add_bedrooms_per_room self \<longrightarrow> (\<exists>c. ?d 4 3 = Inr c)"
    by (auto simp: transform_def divide_cols_rows rooms_ix_def households_ix_def
        population_ix_def bedroom_ix_def split: sum.splits if_splits)
  have ok: "\<exists>y. np_divide (r ! i) (r ! j) = Inr y" if "?d i j = Inr ys" for i j ys
  proof -
    from that have "map (\<lambda>r. np_divide (r ! i) (r ! j)) (rows X) = map Inr ys"
      by (simp add: apply_each_Inr)
    moreover have "np_divide (r ! i) (r ! j) \<in> set (map (\<lambda>r. np_divide (r ! i) (r ! j)) (rows X))"
      using assms(2) by simp
    ultimately show ?thesis by auto
  qed
  from assms(3) ok [OF ab(1)] ok [OF ab(2)] c ok [of 4 3] show ?thesis
    by auto
qed

lemma transform_Inr:
  assumes "wf_ndarray X" and "transform np_divide self X = Inr Y"
  shows "wf_ndarray Y \<and> length (rows Y) = length (rows X) \<and>
         (\<forall>i < length (rows X). take (ncols X) (rows Y ! i) = rows X ! i)"
proof -
  from assms(2) obtain cs where "np_c X cs = Inr Y"
    by (auto simp: transform_def split: sum.splits if_splits)
  then show ?thesis
    using assms(1) by (rule np_c_Inr)
qed

lemma transform_float64:
  assumes "7 \<le> ncols X"
  shows "transform float64_divide self X =
           Inr \<lparr>ncols = ncols X + (if add_bedrooms_per_room self then 3 else 2),
                rows = map (\<lambda>r. r @ [float_div (r ! 3) (r ! 6), float_div (r ! 5) (r ! 6)]
                                 @ (if add_bedrooms_per_room self
                                    then [float_div (r ! 4) (r ! 3)] else []))
                         (rows X)\<rparr>"
  by (rule transform_rows [OF assms]) (simp add: float64_divide_def)




text \<open>
  Claim C10, amended. Take a matrix \<open>X\<close> with at least 7 columns. When none of the
  divisions of two entries raises, which is so for every float64 matrix, \<open>transform\<close>
  returns a matrix in which every row is the row of \<open>X\<close>, unchanged, followed by
  \<open>X[3] / X[6]\<close> (rooms per household) and \<open>X[5] / X[6]\<close> (population per household), and
  then by \<open>X[4] / X[3]\<close> (bedrooms per room) when \<open>add_bedrooms_per_room\<close> is set: the
  width grows by 3, else by 2. When one of these divisions raises, as a zero divisor does
  in an array of dtype object, \<open>transform\<close> raises and returns no matrix. Whenever it
  returns, the result has as many rows as \<open>X\<close> and its leading columns are those of \<open>X\<close>.
  The positions 3, 4, 5, 6 are fixed. \<open>fit\<close> returns the object unchanged, whatever it is
  given, and what \<open>transform\<close> does is the same after a call of \<open>fit\<close>.
\<close>

theorem transform_appends_ratios:
  assumes "wf_ndarray X" and "7 \<le> ncols X"
  shows "(\<forall>rph pph bpr.
            (\<forall>r \<in> set (rows X).
               np_divide (r ! 3) (r ! 6) = Inr (rph r) \<and>
               np_divide (r ! 5) (r ! 6) = Inr (pph r) \<and>
               (add_bedrooms_per_room self \<longrightarrow> np_divide (r ! 4) (r ! 3) = Inr (bpr r))) \<longrightarrow>
            transform np_divide self X =
              Inr \<lparr>ncols = ncols X + (if add_bedrooms_per_room self then 3 else 2),
                   rows = map (\<lambda>r. r @ [rph r, pph r]
                                    @ (if add_bedrooms_per_room self then [bpr r] else []))
                            (rows X)\<rparr>) \<and>
         ((\<exists>r \<in> set (rows X). \<exists>e.
             np_divide (r ! 3) (r ! 6) = Inl e \<or> np_divide (r ! 5) (r ! 6) = Inl e \<or>
             (add_bedrooms_per_room self \<and> np_divide (r ! 4) (r ! 3) = Inl e)) \<longrightarrow>
            (\<exists>e. transform np_divide self X = Inl e)) \<and>
         (\<forall>Y. transform np_divide self X = Inr Y \<longrightarrow>
            wf_ndarray Y \<and> length (rows Y) = length (rows X) \<and>
            (\<forall>i < length (rows X). take (ncols X) (rows Y ! i) = rows X ! i)) \<and>
         (\<forall>Z. 7 \<le> ncols Z \<longrightarrow>
            transform float64_divide self Z =
              Inr \<lparr>ncols = ncols Z + (if add_bedrooms_per_room self then 3 else 2),
                   rows = map (\<lambda>r. r @ [float_div (r ! 3) (r ! 6), float_div (r ! 5) (r ! 6)]
                                    @ (if add_bedrooms_per_room self
                                       then [float_div (r ! 4) (r ! 3)] else []))
                            (rows Z)\<rparr>) \<and>
         fit self X' y = self \<and>
         transform np_divide (fit self X' y) X = transform np_divide self X"
proof -
  have returns: "\<forall>rph pph bpr.
      (\<forall>r \<in> set (rows X).
         np_divide (r ! 3) (r ! 6) = Inr (rph r) \<and>
         np_divide (r ! 5) (r ! 6) = Inr (pph r) \<and>
         (add_bedrooms_per_room self \<longrightarrow> np_divide (r ! 4) (r ! 3) = Inr (bpr r))) \<longrightarrow>
      transform np_divide self X =
        Inr \<lparr>ncols = ncols X + (if add_bedrooms_per_room self then 3 else 2),
             rows = map (\<lambda>r. r @ [rph r, pph r]
                              @ (if add_bedrooms_per_room self then [bpr r] else []))
                      (rows X)\<rparr>"
    using transform_rows [OF assms(2)] by blast
  have raises: "(\<exists>r \<in> set (rows X). \<exists>e.
       np_divide (r ! 3) (r ! 6) = Inl e \<or> np_divide (r ! 5) (r ! 6) = Inl e \<or>
       (add_bedrooms_per_room self \<and> np_divide (r ! 4) (r ! 3) = Inl e)) \<longrightarrow>
      (\<exists>e. transform np_divide self X = Inl e)"
    using transform_raises [OF assms(2)] by blast
  have frame: "\<forall>Y. transform np_divide self X = Inr Y \<longrightarrow>
      wf_ndarray Y \<and> length (rows Y) = length (rows X) \<and>
      (\<forall>i < length (rows X). take (ncols X) (rows Y ! i) = rows X ! i)"
    using transform_Inr [OF assms(1)] by blast
  have floats: "\<forall>Z. 7 \<le> ncols Z \<longrightarrow>
      transform float64_divide self Z =
        Inr \<lparr>ncols = ncols Z + (if add_bedrooms_per_room self then 3 else 2),
             rows = map (\<lambda>r. r @ [float_div (r ! 3) (r ! 6), float_div (r ! 5) (r ! 6)]
                              @ (if add_bedrooms_per_room self
                                 then [float_div (r ! 4) (r ! 3)] else []))
                      (rows Z)\<rparr>"
    using transform_float64 by blast
  have fits: "fit self X' y = self"
      "transform np_divide (fit self X' y) X = transform np_divide self X"
    by (simp_all add: fit_def)
  show ?thesis
    by (intro conjI) (fact returns, fact raises, fact frame, fact floats, fact fits(1),
        fact fits(2))
qed

theorem transform_appends_ratios_witness:
  "wf_ndarray \<lparr>ncols = 7, rows = [map Finite [0, 1, 2, 12, 6, 9, 3],
                                   map Finite [0, 1, 2, 8, 2, 6, 4]]\<rparr> \<and>
   (7::nat) \<le> ncols \<lparr>ncols = 7, rows = [map Finite [0, 1, 2, 12, 6, 9, 3],
                                         map Finite [0, 1, 2, 8, 2, 6, 4]]\<rparr> \<and>
   object_divide (Finite 12) (Finite 3) = Inr (Finite 4) \<and>
   object_divide (Finite 9) (Finite 3) = Inr (Finite 3) \<and>
   object_divide (Finite 6) (Finite 12) = Inr (Finite (1 / 2)) \<and>
   object_divide (Finite 8) (Finite 4) = Inr (Finite 2) \<and>
   object_divide (Finite 6) (Finite 4) = Inr (Finite (3 / 2)) \<and>
   object_divide (Finite 2) (Finite 8) = Inr (Finite (1 / 4)) \<and>
   transform object_divide \<lparr>add_bedrooms_per_room = True\<rparr>
     \<lparr>ncols = 7, rows = [map Finite [0, 1, 2, 12, 6, 9, 3],
                         map Finite [0, 1, 2, 8, 2, 6, 4]]\<rparr> =
   Inr \<lparr>ncols = 10, rows = [map Finite [0, 1, 2, 12, 6, 9, 3, 4, 3, 1 / 2],
                            map Finite [0, 1, 2, 8, 2, 6, 4, 2, 3 / 2, 1 / 4]]\<rparr>"
proof -
  let ?X = "\<lparr>ncols = 7, rows = [map Finite [0, 1, 2, 12, 6, 9, 3],
                                map Finite [0, 1, 2, 8, 2, 6, 4]]\<rparr>"
  let ?self = "\<lparr>add_bedrooms_per_room = True\<rparr>"
  have wf: "wf_ndarray ?X"
    by (simp add: wf_ndarray_def)
  have wide: "7 \<le> ncols ?X"
    by simp
  have divisions: "\<forall>r \<in> set (rows ?X).
      object_divide (r ! 3) (r ! 6) = Inr (float_div (r ! 3) (r ! 6)) \<and>
      object_divide (r ! 5) (r ! 6) = Inr (float_div (r ! 5) (r ! 6)) \<and>
      object_divide (r ! 4) (r ! 3) = Inr (float_div (r ! 4) (r ! 3))"
    by (simp add: object_divide_def)
  note all = transform_appends_ratios [OF wf wide, of object_divide ?self, THEN conjunct1]
  from all [THEN spec, of "\<lambda>r. float_div (r ! 3) (r ! 6)",
      THEN spec, of "\<lambda>r. float_div (r ! 5) (r ! 6)",
      THEN spec, of "\<lambda>r. float_div (r ! 4) (r ! 3)"] divisions
  have "transform object_divide ?self ?X =
      Inr \<lparr>ncols = ncols ?X + (if add_bedrooms_per_room ?self then 3 else 2),
           rows = map (\<lambda>r. r @ [float_div (r ! 3) (r ! 6), float_div (r ! 5) (r ! 6)]
                            @ (if add_bedrooms_per_room ?self
                               then [float_div (r ! 4) (r ! 3)] else []))
                    (rows ?X)\<rparr>"
    by simp
  then have "transform object_divide ?self ?X =
      Inr \<lparr>ncols = 10, rows = [map Finite [0, 1, 2, 12, 6, 9, 3, 4, 3, 1 / 2],
                               map Finite [0, 1, 2, 8, 2, 6, 4, 2, 3 / 2, 1 / 4]]\<rparr>"
    by (simp add: float_eval)
  moreover have "object_divide (Finite 12) (Finite 3) = Inr (Finite 4)"
      "object_divide (Finite 9) (Finite 3) = Inr (Finite 3)"
      "object_divide (Finite 6) (Finite 12) = Inr (Finite (1 / 2))"
      "object_divide (Finite 8) (Finite 4) = Inr (Finite 2)"
      "object_divide (Finite 6) (Finite 4) = Inr (Finite (3 / 2))"
      "object_divide (Finite 2) (Finite 8) = Inr (Finite (1 / 4))"
    by (simp_all add: object_divide_def float_eval)
  ultimately show ?thesis
    using wf wide by blast
qed

text \<open>
  Claim C10 as stated fails on an array of dtype object, which is what line 230 passes
  (\<^verbatim>\<open>housing.values\<close> with the text column in it): with a row whose rooms entry is zero
  and \<open>add_bedrooms_per_room\<close> set, \<open>transform\<close> raises ZeroDivisionError and returns no
  matrix.
\<close>

theorem transform_object_array_counterexample:
  "wf_ndarray \<lparr>ncols = 7, rows = [map Finite [0, 1, 2, 0, 6, 9, 3]]\<rparr> \<and>
   transform object_divide \<lparr>add_bedrooms_per_room = True\<rparr>
     \<lparr>ncols = 7, rows = [map Finite [0, 1, 2, 0, 6, 9, 3]]\<rparr> = Inl ZeroDivisionError"
  by (simp add: wf_ndarray_def transform_def divide_cols_def get_col_def divide_each_def
      object_divide_def rooms_ix_def households_ix_def population_ix_def bedroom_ix_def
      float_eval)




end
